theory Spec2Isabelle
  imports Main
begin

section \<open>Importing Jupyter notebooks as modules: the locator\<close>

text \<open>
  The development follows the three definitions of the notebook
  \<^verbatim>\<open>Workings/Importing Notebooks.ipynb\<close>: the function \<^verbatim>\<open>find_notebook\<close>, the class
  \<^verbatim>\<open>NotebookLoader\<close> and the class \<^verbatim>\<open>NotebookFinder\<close>.

  Python exceptions are values: a class name, a message and the exception they wrap
  (\<^verbatim>\<open>__cause__\<close>), if any.
\<close>

datatype exn = Exn (exn_class: string) (exn_msg: string) (exn_cause: "exn option")

text \<open>A notebook cell, as far as the loader reads it: \<^verbatim>\<open>cell.cell_type\<close> and \<^verbatim>\<open>cell.source\<close>.\<close>

record cell =
  cell_type :: string
  source :: string

text \<open>
  What the code asks of the file system: \<^verbatim>\<open>os.path.isfile\<close>, and the pair
  \<^verbatim>\<open>io.open\<close> / \<^verbatim>\<open>nbformat.read\<close>, which either raises or yields the cells of the notebook.
\<close>

record host_fs =
  os_path_isfile :: "string \<Rightarrow> bool"
  nbformat_read :: "string \<Rightarrow> exn + cell list"

text \<open>\<^verbatim>\<open>fullname.rsplit('.', 1)[-1]\<close>: the text after the last dot, all of it when there is none.\<close>

definition rsplit_last :: "string \<Rightarrow> string" where
  "rsplit_last fullname = rev (takeWhile (\<lambda>c. c \<noteq> CHR ''.'') (rev fullname))"

text \<open>
  \<^verbatim>\<open>os.path.join(a, b)\<close> and \<^verbatim>\<open>os.path.sep\<close> as \<^verbatim>\<open>posixpath\<close> defines them: an absolute
  second component discards the first, and a separator is inserted unless the first
  component is empty or already ends with one.
\<close>

definition os_path_sep :: string where
  "os_path_sep = ''/''"

definition startswith_sep :: "string \<Rightarrow> bool" where
  "startswith_sep b = (case b of [] \<Rightarrow> False | c # _ \<Rightarrow> c = CHR ''/'')"

definition endswith_sep :: "string \<Rightarrow> bool" where
  "endswith_sep a = (case rev a of [] \<Rightarrow> False | c # _ \<Rightarrow> c = CHR ''/'')"

definition os_path_join :: "string \<Rightarrow> string \<Rightarrow> string" where
  "os_path_join a b =
     (if startswith_sep b then b
      else if a = [] \<or> endswith_sep a then a @ b
      else a @ os_path_sep @ b)"

text \<open>\<^verbatim>\<open>s.replace("_", " ")\<close>.\<close>

definition replace_underscores :: "string \<Rightarrow> string" where
  "replace_underscores s = map (\<lambda>c. if c = CHR ''_'' then CHR '' '' else c) s"

text \<open>
  The body of the \<^verbatim>\<open>for d in path\<close> loop of \<^verbatim>\<open>find_notebook\<close>; falling off the end of the
  loop is Python's implicit \<^verbatim>\<open>return None\<close>.
\<close>

fun find_in_dirs :: "host_fs \<Rightarrow> string \<Rightarrow> string list \<Rightarrow> string option" where
  "find_in_dirs fs name [] = None"
| "find_in_dirs fs name (d # ds) =
     (let nb_path = os_path_join d (name @ ''.ipynb'') in
      if os_path_isfile fs nb_path then Some nb_path
      else let nb_path = replace_underscores nb_path in
        if os_path_isfile fs nb_path then Some nb_path
        else find_in_dirs fs name ds)"

text \<open>\<^verbatim>\<open>if not path: path = ['']\<close>: both \<^verbatim>\<open>None\<close> and the empty list are falsy.\<close>

definition search_dirs :: "string list option \<Rightarrow> string list" where
  "search_dirs path = (case path of None \<Rightarrow> [''''] | Some [] \<Rightarrow> [''''] | Some ds \<Rightarrow> ds)"

definition find_notebook :: "host_fs \<Rightarrow> string \<Rightarrow> string list option \<Rightarrow> string option" where
  "find_notebook fs fullname path =
     (let name = rsplit_last fullname in find_in_dirs fs name (search_dirs path))"

section \<open>The finder\<close>

text \<open>
  A \<^verbatim>\<open>NotebookLoader\<close> object keeps the path it was constructed with. Python compares
  loaders by identity, so each object carries the serial number it was allocated under.
\<close>

record NotebookLoader =
  loader_id :: nat
  loader_path :: "string list option"

text \<open>
  The values the variable \<^verbatim>\<open>key\<close> can hold: \<^verbatim>\<open>key = path\<close>, replaced by the string
  \<^verbatim>\<open>os.path.sep.join(path)\<close> when \<^verbatim>\<open>path\<close> is truthy. An empty list is falsy, so it
  stays the key, and a list is not hashable.
\<close>

datatype cache_key = KeyNone | KeyStr string | KeyList "string list"

fun sep_join :: "string list \<Rightarrow> string" where
  "sep_join [] = []"
| "sep_join [d] = d"
| "sep_join (d # ds) = d @ os_path_sep @ sep_join ds"

definition make_key :: "string list option \<Rightarrow> cache_key" where
  "make_key path =
     (case path of None \<Rightarrow> KeyNone | Some [] \<Rightarrow> KeyList [] | Some ds \<Rightarrow> KeyStr (sep_join ds))"

fun hashable :: "cache_key \<Rightarrow> bool" where
  "hashable (KeyList _) = False"
| "hashable _ = True"

record NotebookFinder =
  loaders :: "cache_key \<rightharpoonup> NotebookLoader"
  next_loader_id :: nat

definition NotebookFinder_init :: NotebookFinder where
  "NotebookFinder_init = \<lparr>loaders = Map.empty, next_loader_id = 0\<rparr>"

text \<open>
  \<^verbatim>\<open>if key not in self.loaders: self.loaders[key] = NotebookLoader(path)\<close> followed by
  \<^verbatim>\<open>return self.loaders[key]\<close>, for a hashable key.
\<close>

definition get_loader ::
  "NotebookFinder \<Rightarrow> cache_key \<Rightarrow> string list option \<Rightarrow> NotebookLoader \<times> NotebookFinder" where
  "get_loader self key path =
     (case loaders self key of
        Some l \<Rightarrow> (l, self)
      | None \<Rightarrow>
          (let l = \<lparr>loader_id = next_loader_id self, loader_path = path\<rparr> in
           (l, self\<lparr>loaders := (loaders self)(key \<mapsto> l),
                    next_loader_id := Suc (next_loader_id self)\<rparr>)))"

definition unhashable_list :: exn where
  "unhashable_list =
     Exn ''TypeError'' (''unhashable type: '' @ [CHR 0x27] @ ''list'' @ [CHR 0x27]) None"

text \<open>
  \<^verbatim>\<open>find_module\<close> returns \<^verbatim>\<open>None\<close> (it declines) when no notebook is found, and otherwise
  the loader cached under the key. \<^verbatim>\<open>if not nb_path\<close> also covers the empty string.
  The membership test \<^verbatim>\<open>key not in self.loaders\<close> hashes the key and raises on a list.
\<close>

definition find_module ::
  "host_fs \<Rightarrow> NotebookFinder \<Rightarrow> string \<Rightarrow> string list option
     \<Rightarrow> exn + (NotebookLoader option \<times> NotebookFinder)" where
  "find_module fs self fullname path =
     (let nb_path = find_notebook fs fullname path in
      if nb_path = None \<or> nb_path = Some [] then Inr (None, self)
      else let key = make_key path in
        if \<not> hashable key then Inl unhashable_list
        else (let (l, self') = get_loader self key path in Inr (Some l, self')))"

text \<open>A series of calls on one finder; a call that raises leaves the finder as it was.\<close>

fun find_modules ::
  "NotebookFinder \<Rightarrow> (host_fs \<times> string \<times> string list option) list \<Rightarrow> NotebookFinder" where
  "find_modules self [] = self"
| "find_modules self ((fs, fullname, path) # calls) =
     (case find_module fs self fullname path of
        Inl e \<Rightarrow> find_modules self calls
      | Inr (r, self') \<Rightarrow> find_modules self' calls)"

section \<open>The loader\<close>

text \<open>
  Module namespaces are dictionaries shared by reference: \<^verbatim>\<open>mod.__dict__\<close>,
  \<^verbatim>\<open>shell.user_ns\<close> and the globals of \<^verbatim>\<open>exec\<close> may all be the same object. The store
  \<open>dicts\<close> maps an address to the dictionary living there; a module object is identified
  with the address of its \<^verbatim>\<open>__dict__\<close>. \<open>sys_modules\<close> is \<^verbatim>\<open>sys.modules\<close>, \<open>user_ns\<close> is the
  attribute \<^verbatim>\<open>user_ns\<close> of the one \<^verbatim>\<open>InteractiveShell\<close> instance, \<open>stdout\<close> the lines printed.
\<close>

datatype pyval = PyNone | PyStr string | PyInt int | PyLoader nat | PyFunction string

type_synonym addr = nat

type_synonym namespace = "string \<rightharpoonup> pyval"

record world =
  dicts :: "addr \<rightharpoonup> namespace"
  sys_modules :: "string \<rightharpoonup> addr"
  user_ns :: addr
  next_addr :: addr
  stdout :: "string list"

text \<open>
  The two collaborators from IPython. \<^verbatim>\<open>exec(code, globals)\<close> may raise and may change
  anything in the world; \<^verbatim>\<open>transform_cell\<close> turns cell text into Python text, or raises.
\<close>

type_synonym exec = "string \<Rightarrow> addr \<Rightarrow> world \<Rightarrow> exn option \<times> world"

type_synonym transform = "string \<Rightarrow> exn + string"

text \<open>\<^verbatim>\<open>print ("importing Jupyter notebook from %s" % path)\<close>; \<^verbatim>\<open>None\<close> formats as its name.\<close>

definition announce :: "string option \<Rightarrow> world \<Rightarrow> world" where
  "announce path w =
     w\<lparr>stdout := stdout w @
        [''importing Jupyter notebook from '' @ (case path of None \<Rightarrow> ''None'' | Some p \<Rightarrow> p)]\<rparr>"

text \<open>\<^verbatim>\<open>io.open(None, ...)\<close> raises before anything is read.\<close>

definition open_None :: exn where
  "open_None = Exn ''TypeError'' ''expected str, bytes or os.PathLike object, not NoneType'' None"

text \<open>The attributes a fresh \<^verbatim>\<open>types.ModuleType(fullname)\<close> starts with.\<close>

definition ModuleType :: "string \<Rightarrow> namespace" where
  "ModuleType fullname =
     [''__name__'' \<mapsto> PyStr fullname, ''__doc__'' \<mapsto> PyNone, ''__package__'' \<mapsto> PyNone,
      ''__loader__'' \<mapsto> PyNone, ''__spec__'' \<mapsto> PyNone]"

text \<open>
  Creating the module and adding it to \<^verbatim>\<open>sys.modules\<close>: the module object is allocated,
  \<^verbatim>\<open>__file__\<close>, \<^verbatim>\<open>__loader__\<close> and \<^verbatim>\<open>get_ipython\<close> are set, and the module is registered.
\<close>

definition module_namespace :: "NotebookLoader \<Rightarrow> string \<Rightarrow> string \<Rightarrow> namespace" where
  "module_namespace self fullname p =
     (ModuleType fullname)
       (''__file__'' \<mapsto> PyStr p, ''__loader__'' \<mapsto> PyLoader (loader_id self),
        ''get_ipython'' \<mapsto> PyFunction ''get_ipython'')"

definition new_module :: "NotebookLoader \<Rightarrow> string \<Rightarrow> string \<Rightarrow> world \<Rightarrow> addr \<times> world" where
  "new_module self fullname p w =
     (let m = next_addr w in
      (m, w\<lparr>dicts := (dicts w)(m \<mapsto> module_namespace self fullname p),
            sys_modules := (sys_modules w)(fullname \<mapsto> m),
            next_addr := Suc m\<rparr>))"

text \<open>
  One code cell: \<^verbatim>\<open>code = transform_cell(cell.source)\<close>, then \<^verbatim>\<open>exec(code, mod.__dict__)\<close>.
\<close>

definition exec_fragment ::
  "exec \<Rightarrow> transform \<Rightarrow> addr \<Rightarrow> string \<Rightarrow> world \<Rightarrow> exn option \<times> world" where
  "exec_fragment ex tr m src w =
     (case tr src of Inl e \<Rightarrow> (Some e, w) | Inr code \<Rightarrow> ex code m w)"

text \<open>The loop \<^verbatim>\<open>for cell in nb.cells\<close>; an exception leaves the loop at once.\<close>

fun run_cells :: "exec \<Rightarrow> transform \<Rightarrow> addr \<Rightarrow> cell list \<Rightarrow> world \<Rightarrow> exn option \<times> world" where
  "run_cells ex tr m [] w = (None, w)"
| "run_cells ex tr m (c # cs) w =
     (if cell_type c = ''code'' then
        (case exec_fragment ex tr m (source c) w of
           (Some e, w') \<Rightarrow> (Some e, w')
         | (None, w') \<Rightarrow> run_cells ex tr m cs w')
      else run_cells ex tr m cs w)"

text \<open>
  \<^verbatim>\<open>load_module\<close>. The \<^verbatim>\<open>finally\<close> clause runs whether or not the loop raised; an
  exception raised before the \<^verbatim>\<open>try\<close> statement leaves \<^verbatim>\<open>shell.user_ns\<close> untouched.
\<close>

definition load_module ::
  "host_fs \<Rightarrow> exec \<Rightarrow> transform \<Rightarrow> NotebookLoader \<Rightarrow> string \<Rightarrow> world \<Rightarrow> (exn + addr) \<times> world" where
  "load_module fs ex tr self fullname w =
     (let path = find_notebook fs fullname (loader_path self);
          w1 = announce path w
      in case path of
           None \<Rightarrow> (Inl open_None, w1)
         | Some p \<Rightarrow>
             (case nbformat_read fs p of
                Inl e \<Rightarrow> (Inl e, w1)
              | Inr nb \<Rightarrow>
                  (let (m, w2) = new_module self fullname p w1;
                       save_user_ns = user_ns w2;
                       w3 = w2\<lparr>user_ns := m\<rparr>;
                       (r, w4) = run_cells ex tr m nb w3;
                       w5 = w4\<lparr>user_ns := save_user_ns\<rparr>
                   in (case r of Some e \<Rightarrow> (Inl e, w5) | None \<Rightarrow> (Inr m, w5)))))"

text \<open>
  The world in which the first cell runs: the message printed, the module created and
  registered, and \<^verbatim>\<open>shell.user_ns\<close> pointing at the module's dictionary.
\<close>

definition entry_world :: "NotebookLoader \<Rightarrow> string \<Rightarrow> string \<Rightarrow> world \<Rightarrow> world" where
  "entry_world self fullname p w =
     (snd (new_module self fullname p (announce (Some p) w)))\<lparr>user_ns := next_addr w\<rparr>"

section \<open>Notions used to state the properties\<close>

text \<open>
  The lookup order in the words of the design document: first the candidate
  \<open>d/leaf.ipynb\<close> for every directory in order, and only when none of them exists the
  candidates with every underscore of the leaf name replaced by a space.
\<close>

definition locate_spec :: "host_fs \<Rightarrow> string \<Rightarrow> string list option \<Rightarrow> string option" where
  "locate_spec fs fullname path =
     (let name = rsplit_last fullname; ds = search_dirs path in
      case List.find (os_path_isfile fs) (map (\<lambda>d. os_path_join d (name @ ''.ipynb'')) ds) of
        Some p \<Rightarrow> Some p
      | None \<Rightarrow>
          List.find (os_path_isfile fs)
            (map (\<lambda>d. os_path_join d (replace_underscores name @ ''.ipynb'')) ds))"

text \<open>
  The two paths the loop of \<^verbatim>\<open>find_notebook\<close> probes in a directory \<open>d\<close>: the joined path,
  and the joined path after \<^verbatim>\<open>.replace("_", " ")\<close>; and all probes in the order of the loop.
\<close>

definition primary_candidate :: "string \<Rightarrow> string \<Rightarrow> string" where
  "primary_candidate d name = os_path_join d (name @ ''.ipynb'')"

definition fallback_candidate :: "string \<Rightarrow> string \<Rightarrow> string" where
  "fallback_candidate d name = replace_underscores (primary_candidate d name)"

definition probes :: "string \<Rightarrow> string list \<Rightarrow> string list" where
  "probes name ds = concat (map (\<lambda>d. [primary_candidate d name, fallback_candidate d name]) ds)"

text \<open>
  The finder's cache is well formed when every cached loader was allocated by this
  finder and no loader object sits under two keys.
\<close>

definition finder_ok :: "NotebookFinder \<Rightarrow> bool" where
  "finder_ok f \<longleftrightarrow>
     (\<forall>k l. loaders f k = Some l \<longrightarrow> loader_id l < next_loader_id f) \<and>
     (\<forall>k k' l l'. loaders f k = Some l \<and> loaders f k' = Some l' \<and> loader_id l = loader_id l'
        \<longrightarrow> k = k')"

text \<open>
  Executing the given Python texts one after the other with the globals \<open>m\<close>, each once,
  whatever they raise; and the sources of the code cells of a notebook, in document order.
\<close>

definition run_in_order :: "exec \<Rightarrow> addr \<Rightarrow> string list \<Rightarrow> world \<Rightarrow> world" where
  "run_in_order ex m codes w = foldl (\<lambda>w' code. snd (ex code m w')) w codes"

definition code_sources :: "cell list \<Rightarrow> string list" where
  "code_sources nb = map source (filter (\<lambda>c. cell_type c = ''code'') nb)"

text \<open>
  Executed code is confined when it leaves \<^verbatim>\<open>shell.user_ns\<close> pointing where it did and
  writes to no dictionary other than its globals and the one \<^verbatim>\<open>shell.user_ns\<close> refers to.
\<close>

definition confined :: "exec \<Rightarrow> bool" where
  "confined ex \<longleftrightarrow>
     (\<forall>code g w. user_ns (snd (ex code g w)) = user_ns w \<and>
        (\<forall>a. a \<noteq> g \<and> a \<noteq> user_ns w \<longrightarrow> dicts (snd (ex code g w)) a = dicts w a))"

text \<open>
  An error that wraps another in the sense of the design document: an exception of class
  \<open>LoadError\<close> whose cause is the original failure.
\<close>

definition wraps_as_LoadError :: "exn \<Rightarrow> exn \<Rightarrow> bool" where
  "wraps_as_LoadError e original \<longleftrightarrow> exn_class e = ''LoadError'' \<and> exn_cause e = Some original"

section \<open>A small concrete host\<close>

text \<open>
  A file system given by the notebooks it holds; a world whose interactive namespace is
  the empty dictionary at address 0; an \<^verbatim>\<open>exec\<close> for a three-statement language
  (\<open>raise\<close> raises, \<open>%x\<close> binds \<open>x\<close> in \<^verbatim>\<open>shell.user_ns\<close> as a magic would, any other text \<open>x\<close>
  binds \<open>x\<close> in the globals); and the identity transformer.
\<close>

definition fs_of :: "(string \<times> cell list) list \<Rightarrow> host_fs" where
  "fs_of files =
     \<lparr>os_path_isfile = (\<lambda>p. map_of files p \<noteq> None),
      nbformat_read = (\<lambda>p. case map_of files p of
                              None \<Rightarrow> Inl (Exn ''FileNotFoundError'' p None)
                            | Some cs \<Rightarrow> Inr cs)\<rparr>"

definition demo_world :: world where
  "demo_world =
     \<lparr>dicts = [0 \<mapsto> Map.empty], sys_modules = Map.empty, user_ns = 0, next_addr = 1, stdout = []\<rparr>"

definition boom :: exn where
  "boom = Exn ''RuntimeError'' ''boom'' None"

definition bind_name :: "addr \<Rightarrow> string \<Rightarrow> world \<Rightarrow> world" where
  "bind_name a x w =
     w\<lparr>dicts := (dicts w)(a \<mapsto> (case dicts w a of None \<Rightarrow> Map.empty | Some ns \<Rightarrow> ns)(x \<mapsto> PyInt 1))\<rparr>"

definition demo_exec :: exec where
  "demo_exec code g w =
     (if code = ''raise'' then (Some boom, w)
      else if take 1 code = ''%'' then (None, bind_name (user_ns w) (drop 1 code) w)
      else (None, bind_name g code w))"

definition demo_transform :: transform where
  "demo_transform src = Inr src"

definition demo_loader :: NotebookLoader where
  "demo_loader = \<lparr>loader_id = 0, loader_path = None\<rparr>"

text \<open>
  Two notebooks: one with a magic, a markdown cell and a binding; one whose second code
  cell raises; and one without code.
\<close>

definition code_cell :: "string \<Rightarrow> cell" where
  "code_cell src = \<lparr>cell_type = ''code'', source = src\<rparr>"

definition markdown_cell :: "string \<Rightarrow> cell" where
  "markdown_cell src = \<lparr>cell_type = ''markdown'', source = src\<rparr>"

definition demo_fs :: host_fs where
  "demo_fs = fs_of
     [(''nb.ipynb'', [code_cell ''%x'', markdown_cell ''ignored'', code_cell ''y'']),
      (''failing.ipynb'', [code_cell ''a'', code_cell ''raise'', code_cell ''b'']),
      (''prose.ipynb'', [markdown_cell ''no code here''])]"

text \<open>A directory tree with \<open>a/b/other.ipynb\<close> and \<open>a/nb.ipynb\<close>, and no \<open>b/\<close> or \<open>a/b/nb.ipynb\<close>.\<close>

definition tree_fs :: host_fs where
  "tree_fs = fs_of [(''a/b/other.ipynb'', []), (''a/nb.ipynb'', [code_cell ''y''])]"

section \<open>Properties of the locator and the finder\<close>

lemmas demo_defs = demo_fs_def fs_of_def demo_exec_def demo_transform_def demo_loader_def
  demo_world_def code_cell_def markdown_cell_def bind_name_def boom_def

lemmas model_defs = load_module_def find_notebook_def search_dirs_def os_path_join_def
  os_path_sep_def startswith_sep_def endswith_sep_def rsplit_last_def replace_underscores_def
  announce_def new_module_def exec_fragment_def module_namespace_def ModuleType_def
  entry_world_def Let_def


lemma load_module_unfold:
  assumes "find_notebook fs fullname (loader_path self) = Some p"
    and "nbformat_read fs p = Inr nb"
  shows "load_module fs ex tr self fullname w =
     (case fst (run_cells ex tr (next_addr w) nb (entry_world self fullname p w)) of
        Some e \<Rightarrow> Inl e | None \<Rightarrow> Inr (next_addr w),
      (snd (run_cells ex tr (next_addr w) nb (entry_world self fullname p w)))
        \<lparr>user_ns := user_ns w\<rparr>)"
  using assms
  by (simp add: load_module_def entry_world_def new_module_def announce_def Let_def
      split: prod.splits option.splits)



text \<open>
  C8. With a notebook \<open>nb.ipynb\<close> in the current directory, \<^verbatim>\<open>find_notebook\<close> treats
  \<^verbatim>\<open>None\<close> and the empty list alike, and \<^verbatim>\<open>find_module\<close> returns a loader for \<^verbatim>\<open>None\<close>; for
  the empty list the key is the list itself and \<^verbatim>\<open>find_module\<close> raises \<open>TypeError\<close>.
\<close>

theorem find_module_empty_path_raises:
  "find_notebook (fs_of [(''nb.ipynb'', [])]) ''nb'' None = Some ''nb.ipynb'' \<and>
   find_notebook (fs_of [(''nb.ipynb'', [])]) ''nb'' (Some []) = Some ''nb.ipynb'' \<and>
   find_module (fs_of [(''nb.ipynb'', [])]) NotebookFinder_init ''nb'' None =
     Inr (Some \<lparr>loader_id = 0, loader_path = None\<rparr>,
          \<lparr>loaders = [KeyNone \<mapsto> \<lparr>loader_id = 0, loader_path = None\<rparr>], next_loader_id = 1\<rparr>) \<and>
   find_module (fs_of [(''nb.ipynb'', [])]) NotebookFinder_init ''nb'' (Some []) =
     Inl (Exn ''TypeError'' (''unhashable type: '' @ [CHR 0x27] @ ''list'' @ [CHR 0x27]) None)"
  by (simp add: find_module_def find_notebook_def search_dirs_def fs_of_def os_path_join_def
      startswith_sep_def rsplit_last_def make_key_def get_loader_def NotebookFinder_init_def
      unhashable_list_def Let_def)

lemma replace_underscores_append:
  "replace_underscores (a @ b) = replace_underscores a @ replace_underscores b"
  by (simp add: replace_underscores_def)

lemma replace_underscores_id: "CHR ''_'' \<notin> set d \<Longrightarrow> replace_underscores d = d"
  by (induction d) (auto simp: replace_underscores_def)

lemma startswith_sep_replace: "startswith_sep (replace_underscores b) = startswith_sep b"
  by (cases b) (auto simp: startswith_sep_def replace_underscores_def)

lemma endswith_sep_replace: "endswith_sep (replace_underscores a) = endswith_sep a"
proof (cases "rev a")
  case Nil
  then show ?thesis by (simp add: endswith_sep_def replace_underscores_def)
next
  case (Cons c cs)
  then show ?thesis by (auto simp: endswith_sep_def replace_underscores_def rev_map)
qed

lemma replace_underscores_join:
  "replace_underscores (os_path_join a b) =
     os_path_join (replace_underscores a) (replace_underscores b)"
proof -
  have "(replace_underscores a = []) = (a = [])"
    by (simp add: replace_underscores_def)
  moreover have "replace_underscores os_path_sep = os_path_sep"
    by (simp add: replace_underscores_def os_path_sep_def)
  ultimately show ?thesis
    by (simp add: os_path_join_def startswith_sep_replace endswith_sep_replace
        replace_underscores_append)
qed

lemma fallback_candidate_plain_dir:
  assumes "CHR ''_'' \<notin> set d"
  shows "fallback_candidate d name = os_path_join d (replace_underscores name @ ''.ipynb'')"
proof -
  have "replace_underscores ''.ipynb'' = ''.ipynb''"
    by (simp add: replace_underscores_def)
  then show ?thesis
    using assms
    by (simp add: fallback_candidate_def primary_candidate_def replace_underscores_join
        replace_underscores_append replace_underscores_id)
qed

lemma find_in_dirs_probes:
  "find_in_dirs fs name ds = List.find (os_path_isfile fs) (probes name ds)"
proof (induction ds)
  case Nil
  then show ?case by (simp add: probes_def)
next
  case (Cons d ds)
  have "probes name (d # ds) =
      primary_candidate d name # fallback_candidate d name # probes name ds"
    by (simp add: probes_def)
  with Cons show ?case
    by (simp add: Let_def primary_candidate_def fallback_candidate_def)
qed

text \<open>
  C5, as the design document words it, fails: with \<open>d1/a b.ipynb\<close> and \<open>d2/a_b.ipynb\<close> on
  disk, \<^verbatim>\<open>find_notebook\<close> returns the space form in \<open>d1\<close> although the plain name exists in
  \<open>d2\<close>, where a search that tries the plain name in every directory first returns \<open>d2/a_b.ipynb\<close>.
\<close>

theorem find_notebook_fallback_first_counterexample:
  "find_notebook (fs_of [(''d1/a b.ipynb'', []), (''d2/a_b.ipynb'', [])]) ''a_b''
      (Some [''d1'', ''d2'']) = Some ''d1/a b.ipynb'' \<and>
   os_path_isfile (fs_of [(''d1/a b.ipynb'', []), (''d2/a_b.ipynb'', [])])
      (os_path_join ''d2'' (''a_b'' @ ''.ipynb'')) \<and>
   locate_spec (fs_of [(''d1/a b.ipynb'', []), (''d2/a_b.ipynb'', [])]) ''a_b''
      (Some [''d1'', ''d2'']) = Some ''d2/a_b.ipynb''"
  by (simp add: find_notebook_def locate_spec_def search_dirs_def fs_of_def os_path_join_def
      os_path_sep_def startswith_sep_def endswith_sep_def rsplit_last_def replace_underscores_def)

text \<open>
  C5, amended. \<^verbatim>\<open>find_notebook\<close> visits the search directories in the caller's order and,
  within each directory, checks the candidate made from the unmodified leaf name and then,
  before it moves on, the fallback candidate; it returns the first of these that is a
  regular file, whatever the directories are called. For a directory without an
  underscore the fallback candidate is the directory joined with the leaf name in which
  every underscore is a space.
\<close>

theorem find_notebook_interleaved:
  "find_notebook fs fullname path =
     List.find (os_path_isfile fs) (probes (rsplit_last fullname) (search_dirs path)) \<and>
   (\<forall>d. CHR ''_'' \<notin> set d \<longrightarrow>
      fallback_candidate d (rsplit_last fullname) =
        os_path_join d (replace_underscores (rsplit_last fullname) @ ''.ipynb''))"
  by (simp add: find_notebook_def find_in_dirs_probes fallback_candidate_plain_dir)

theorem find_notebook_interleaved_witness:
  "probes (rsplit_last ''pkg.a_b'') (search_dirs (Some [''my_pkg'', ''d2''])) =
     [''my_pkg/a_b.ipynb'', fallback_candidate ''my_pkg'' ''a_b'',
      ''d2/a_b.ipynb'', ''d2/a b.ipynb''] \<and>
   find_notebook (fs_of [(''d2/a b.ipynb'', [])]) ''pkg.a_b'' (Some [''my_pkg'', ''d2''])
     = Some ''d2/a b.ipynb'' \<and>
   CHR ''_'' \<notin> set ''d2'' \<and>
   fallback_candidate ''d2'' (rsplit_last ''pkg.a_b'') =
     os_path_join ''d2'' (replace_underscores (rsplit_last ''pkg.a_b'') @ ''.ipynb'') \<and>
   os_path_join ''d2'' (replace_underscores (rsplit_last ''pkg.a_b'') @ ''.ipynb'') = ''d2/a b.ipynb''"
proof -
  note T = find_notebook_interleaved [of "fs_of [(''d2/a b.ipynb'', [])]" "''pkg.a_b''"
      "Some [''my_pkg'', ''d2'']"]
  have plain: "CHR ''_'' \<notin> set ''d2''"
    by simp
  have form: "fallback_candidate ''d2'' (rsplit_last ''pkg.a_b'') =
     os_path_join ''d2'' (replace_underscores (rsplit_last ''pkg.a_b'') @ ''.ipynb'')"
    by (rule mp [OF spec [OF T [THEN conjunct2]] plain])
  have joined: "os_path_join ''d2'' (replace_underscores (rsplit_last ''pkg.a_b'') @ ''.ipynb'')
      = ''d2/a b.ipynb''"
    by (simp add: rsplit_last_def os_path_join_def os_path_sep_def startswith_sep_def
        endswith_sep_def replace_underscores_def)
  have order: "probes (rsplit_last ''pkg.a_b'') (search_dirs (Some [''my_pkg'', ''d2''])) =
     [''my_pkg/a_b.ipynb'', fallback_candidate ''my_pkg'' ''a_b'',
      ''d2/a_b.ipynb'', ''d2/a b.ipynb'']"
    using form joined
    by (simp add: probes_def primary_candidate_def search_dirs_def rsplit_last_def
        os_path_join_def os_path_sep_def startswith_sep_def endswith_sep_def)
  have found: "find_notebook (fs_of [(''d2/a b.ipynb'', [])]) ''pkg.a_b'' (Some [''my_pkg'', ''d2''])
     = Some ''d2/a b.ipynb''"
    using T [THEN conjunct1] order
    by (simp add: fs_of_def fallback_candidate_def primary_candidate_def os_path_join_def
        os_path_sep_def startswith_sep_def endswith_sep_def replace_underscores_def)
  from order found plain form joined show ?thesis by blast
qed

lemma get_loader_props:
  assumes ok: "finder_ok f" and g: "get_loader f k p = (l, f')"
  shows "finder_ok f'" and "loaders f' k = Some l"
    and "\<And>k0 l0. loaders f k0 = Some l0 \<Longrightarrow> loaders f' k0 = Some l0"
proof -
  show "finder_ok f'"
  proof (cases "loaders f k")
    case None
    with g have f': "f' = f\<lparr>loaders := (loaders f)(k \<mapsto> l), next_loader_id := Suc (next_loader_id f)\<rparr>"
      and l: "loader_id l = next_loader_id f"
      by (auto simp: get_loader_def Let_def)
    from ok have below: "\<And>k0 l0. loaders f k0 = Some l0 \<Longrightarrow> loader_id l0 < next_loader_id f"
      and inj: "\<And>k0 k1 l0 l1. loaders f k0 = Some l0 \<Longrightarrow> loaders f k1 = Some l1 \<Longrightarrow>
          loader_id l0 = loader_id l1 \<Longrightarrow> k0 = k1"
      unfolding finder_ok_def by blast+
    show ?thesis
      unfolding finder_ok_def f'
    proof (intro conjI allI impI)
      fix k0 l0
      assume "loaders (f\<lparr>loaders := (loaders f)(k \<mapsto> l), next_loader_id := Suc (next_loader_id f)\<rparr>) k0 = Some l0"
      then have "(k0 = k \<and> l0 = l) \<or> loaders f k0 = Some l0"
        by (auto split: if_splits)
      then show "loader_id l0 < next_loader_id (f\<lparr>loaders := (loaders f)(k \<mapsto> l), next_loader_id := Suc (next_loader_id f)\<rparr>)"
        using l below by (auto simp: less_Suc_eq)
    next
      fix k0 k1 l0 l1
      assume a: "loaders (f\<lparr>loaders := (loaders f)(k \<mapsto> l), next_loader_id := Suc (next_loader_id f)\<rparr>) k0 = Some l0 \<and>
        loaders (f\<lparr>loaders := (loaders f)(k \<mapsto> l), next_loader_id := Suc (next_loader_id f)\<rparr>) k1 = Some l1 \<and>
        loader_id l0 = loader_id l1"
      then have c0: "(k0 = k \<and> l0 = l) \<or> (k0 \<noteq> k \<and> loaders f k0 = Some l0)"
        and c1: "(k1 = k \<and> l1 = l) \<or> (k1 \<noteq> k \<and> loaders f k1 = Some l1)"
        and e: "loader_id l0 = loader_id l1"
        by (auto split: if_splits)
      show "k0 = k1"
        using c0 c1 e l below inj by (metis less_irrefl)
    qed
  next
    case (Some l0)
    with g ok show ?thesis by (simp add: get_loader_def)
  qed
  show "loaders f' k = Some l"
    using g by (auto simp: get_loader_def Let_def split: option.splits)
  show "\<And>k0 l0. loaders f k0 = Some l0 \<Longrightarrow> loaders f' k0 = Some l0"
    using g by (auto simp: get_loader_def Let_def split: option.splits)
qed

lemma find_module_props:
  assumes ok: "finder_ok f" and r: "find_module fs f fullname path = Inr (res, f')"
  shows "finder_ok f'"
    and "\<And>k0 l0. loaders f k0 = Some l0 \<Longrightarrow> loaders f' k0 = Some l0"
    and "\<And>l. res = Some l \<Longrightarrow> loaders f' (make_key path) = Some l"
proof -
  have "(res = None \<and> f' = f) \<or> (\<exists>l. res = Some l \<and> get_loader f (make_key path) path = (l, f'))"
    using r by (auto simp: find_module_def Let_def split: if_splits prod.splits)
  then show "finder_ok f'"
    and "\<And>k0 l0. loaders f k0 = Some l0 \<Longrightarrow> loaders f' k0 = Some l0"
    and "\<And>l. res = Some l \<Longrightarrow> loaders f' (make_key path) = Some l"
    using get_loader_props [OF ok] ok by auto
qed

lemma find_modules_props:
  "finder_ok f \<Longrightarrow>
     finder_ok (find_modules f calls) \<and>
     (\<forall>k0 l0. loaders f k0 = Some l0 \<longrightarrow> loaders (find_modules f calls) k0 = Some l0)"
proof (induction calls arbitrary: f)
  case Nil
  then show ?case by simp
next
  case (Cons call calls)
  obtain fs fullname path where call: "call = (fs, fullname, path)"
    by (cases call) auto
  show ?case
  proof (cases "find_module fs f fullname path")
    case (Inl e)
    with Cons call show ?thesis by simp
  next
    case (Inr rf)
    obtain res f' where rf: "rf = (res, f')" by (cases rf) auto
    have ok': "finder_ok f'"
      and keep: "\<And>k0 l0. loaders f k0 = Some l0 \<Longrightarrow> loaders f' k0 = Some l0"
      using find_module_props [OF Cons.prems] Inr rf by auto
    from Cons.IH [OF ok'] keep Inr rf call show ?thesis by simp
  qed
qed

lemma finder_ok_init: "finder_ok NotebookFinder_init"
  by (simp add: finder_ok_def NotebookFinder_init_def)

text \<open>
  What the cache does guarantee. Of two calls of \<^verbatim>\<open>find_module\<close> on one finder, with any
  calls before and in between, that both return a loader: the same key (\<^verbatim>\<open>None\<close>, or the
  separator-joined string), and so in particular the same search path, gives the same
  loader object; different keys give different loader objects.
\<close>

lemma find_module_same_key_same_loader:
  assumes "find_module fs1 (find_modules NotebookFinder_init before) n1 p1 = Inr (Some l1, f1)"
    and "find_module fs2 (find_modules f1 between) n2 p2 = Inr (Some l2, f2)"
  shows "(p1 = p2 \<longrightarrow> l1 = l2) \<and>
         (make_key p1 = make_key p2 \<longrightarrow> l1 = l2) \<and>
         (make_key p1 \<noteq> make_key p2 \<longrightarrow> loader_id l1 \<noteq> loader_id l2)"
proof -
  let ?start = "find_modules NotebookFinder_init before"
  let ?mid = "find_modules f1 between"
  have ok0: "finder_ok ?start"
    using find_modules_props [OF finder_ok_init, of before] by simp
  have ok1: "finder_ok f1" and in1: "loaders f1 (make_key p1) = Some l1"
    using find_module_props [OF ok0 assms(1)] by auto
  have ok: "finder_ok ?mid" and in1': "loaders ?mid (make_key p1) = Some l1"
    using find_modules_props [OF ok1, of between] in1 by auto
  have ok2: "finder_ok f2" and in2: "loaders f2 (make_key p2) = Some l2"
    and keep: "\<And>k0 l0. loaders ?mid k0 = Some l0 \<Longrightarrow> loaders f2 k0 = Some l0"
    using find_module_props [OF ok assms(2)] by auto
  have in12: "loaders f2 (make_key p1) = Some l1"
    using keep in1' by simp
  have same: "make_key p1 = make_key p2 \<Longrightarrow> l1 = l2"
    using in12 in2 by simp
  have diff: "make_key p1 \<noteq> make_key p2 \<Longrightarrow> loader_id l1 \<noteq> loader_id l2"
    using ok2 in12 in2 unfolding finder_ok_def by blast
  show ?thesis using same diff by auto
qed

text \<open>
  C6. Different search paths can be joined to the same key, and then the finder hands out
  the wrong loader. With \<open>a/b/other.ipynb\<close> and \<open>a/nb.ipynb\<close> on disk, a fresh finder asked
  for \<open>other\<close> under \<open>[a/b]\<close> creates a loader bound to \<open>[a/b]\<close> and caches it under \<open>a/b\<close>.
  Asked for \<open>nb\<close> under the different path \<open>[a, b]\<close>, for which \<^verbatim>\<open>find_notebook\<close> locates
  \<open>a/nb.ipynb\<close>, it returns that same loader object. \<^verbatim>\<open>load_module\<close> of this loader searches
  \<open>[a/b]\<close>, finds no \<open>nb\<close> and raises, where a loader bound to \<open>[a, b]\<close> loads the notebook.
\<close>

theorem find_module_key_collision:
  "find_module tree_fs NotebookFinder_init ''other'' (Some [''a/b'']) =
     Inr (Some \<lparr>loader_id = 0, loader_path = Some [''a/b'']\<rparr>,
          \<lparr>loaders = [KeyStr ''a/b'' \<mapsto> \<lparr>loader_id = 0, loader_path = Some [''a/b'']\<rparr>],
           next_loader_id = 1\<rparr>) \<and>
   [''a/b''] \<noteq> [''a'', ''b''] \<and>
   find_notebook tree_fs ''nb'' (Some [''a'', ''b'']) = Some ''a/nb.ipynb'' \<and>
   find_module tree_fs
      \<lparr>loaders = [KeyStr ''a/b'' \<mapsto> \<lparr>loader_id = 0, loader_path = Some [''a/b'']\<rparr>],
       next_loader_id = 1\<rparr> ''nb'' (Some [''a'', ''b'']) =
     Inr (Some \<lparr>loader_id = 0, loader_path = Some [''a/b'']\<rparr>,
          \<lparr>loaders = [KeyStr ''a/b'' \<mapsto> \<lparr>loader_id = 0, loader_path = Some [''a/b'']\<rparr>],
           next_loader_id = 1\<rparr>) \<and>
   fst (load_module tree_fs demo_exec demo_transform
          \<lparr>loader_id = 0, loader_path = Some [''a/b'']\<rparr> ''nb'' demo_world) = Inl open_None \<and>
   fst (load_module tree_fs demo_exec demo_transform
          \<lparr>loader_id = 1, loader_path = Some [''a'', ''b'']\<rparr> ''nb'' demo_world) = Inr 1"
  by (simp add: find_module_def make_key_def get_loader_def NotebookFinder_init_def
      tree_fs_def demo_defs model_defs)

section \<open>Properties of the loader\<close>

lemma run_cells_append:
  "run_cells ex tr m (xs @ ys) w =
     (case run_cells ex tr m xs w of
        (Some e, w') \<Rightarrow> (Some e, w')
      | (None, w') \<Rightarrow> run_cells ex tr m ys w')"
  by (induction xs arbitrary: w) (auto split: prod.splits option.splits)

lemma run_cells_no_code:
  "\<forall>c \<in> set nb. cell_type c \<noteq> ''code'' \<Longrightarrow> run_cells ex tr m nb w = (None, w)"
  by (induction nb) auto

lemma run_cells_first_failure:
  assumes "cell_type c = ''code''"
    and "run_cells ex tr m pre w = (None, w1)"
    and "exec_fragment ex tr m (source c) w1 = (Some e, w2)"
  shows "run_cells ex tr m (pre @ c # post) w = (Some e, w2)"
  using assms by (simp add: run_cells_append)

lemma run_in_order_Cons:
  "run_in_order ex m (code # codes) w = run_in_order ex m codes (snd (ex code m w))"
  by (simp add: run_in_order_def)

lemma run_cells_success:
  "run_cells ex tr m nb w = (None, w') \<Longrightarrow>
     \<exists>codes. map tr (code_sources nb) = map Inr codes \<and>
       w' = run_in_order ex m codes w \<and>
       (\<forall>i < length codes.
          fst (ex (codes ! i) m (run_in_order ex m (take i codes) w)) = None)"
proof (induction nb arbitrary: w)
  case Nil
  then show ?case by (simp add: code_sources_def run_in_order_def)
next
  case (Cons c cs)
  show ?case
  proof (cases "cell_type c = ''code''")
    case False
    then have "run_cells ex tr m cs w = (None, w')"
      using Cons.prems by simp
    from Cons.IH [OF this] False show ?thesis
      by (simp add: code_sources_def)
  next
    case True
    from True Cons.prems obtain code where tr: "tr (source c) = Inr code"
      by (cases "tr (source c)") (auto simp: exec_fragment_def)
    obtain r w1 where step: "ex code m w = (r, w1)"
      by (cases "ex code m w") auto
    with True tr Cons.prems have r: "r = None" and rest: "run_cells ex tr m cs w1 = (None, w')"
      by (auto simp: exec_fragment_def split: option.splits)
    have srcs: "code_sources (c # cs) = source c # code_sources cs"
      using True by (simp add: code_sources_def)
    from Cons.IH [OF rest] obtain codes
      where trs: "map tr (code_sources cs) = map Inr codes"
        and w': "w' = run_in_order ex m codes w1"
        and ok: "\<And>i. i < length codes \<Longrightarrow>
            fst (ex (codes ! i) m (run_in_order ex m (take i codes) w1)) = None"
      by blast
    have "map tr (code_sources (c # cs)) = map Inr (code # codes)"
      using tr trs by (simp add: srcs)
    moreover have "w' = run_in_order ex m (code # codes) w"
      using w' step by (simp add: run_in_order_Cons)
    moreover have "fst (ex ((code # codes) ! i) m
        (run_in_order ex m (take i (code # codes)) w)) = None"
      if "i < length (code # codes)" for i
    proof (cases i)
      case 0
      then show ?thesis using step r by (simp add: run_in_order_def)
    next
      case (Suc j)
      with that have "j < length codes" by simp
      from ok [OF this] show ?thesis
        using Suc step by (simp add: run_in_order_Cons)
    qed
    ultimately show ?thesis by blast
  qed
qed

lemma run_cells_complete:
  "map tr (code_sources nb) = map Inr codes \<Longrightarrow>
   (\<forall>i < length codes. fst (ex (codes ! i) m (run_in_order ex m (take i codes) w)) = None) \<Longrightarrow>
     run_cells ex tr m nb w = (None, run_in_order ex m codes w)"
proof (induction nb arbitrary: w codes)
  case Nil
  then show ?case by (simp add: code_sources_def run_in_order_def)
next
  case (Cons c cs)
  show ?case
  proof (cases "cell_type c = ''code''")
    case False
    then have "code_sources (c # cs) = code_sources cs"
      by (simp add: code_sources_def)
    with Cons.prems Cons.IH [of codes w] False show ?thesis by simp
  next
    case True
    then have srcs: "code_sources (c # cs) = source c # code_sources cs"
      by (simp add: code_sources_def)
    with Cons.prems(1) obtain code codes'
      where codes: "codes = code # codes'" and tr: "tr (source c) = Inr code"
        and trs: "map tr (code_sources cs) = map Inr codes'"
      by (cases codes) auto
    obtain r w1 where step: "ex code m w = (r, w1)"
      by (cases "ex code m w") auto
    have first: "r = None"
      using Cons.prems(2) codes step by (auto simp: run_in_order_def dest: spec [of _ 0])
    have later: "\<forall>i < length codes'.
        fst (ex (codes' ! i) m (run_in_order ex m (take i codes') w1)) = None"
    proof (intro allI impI)
      fix i assume "i < length codes'"
      then have "Suc i < length codes" by (simp add: codes)
      with Cons.prems(2) have "fst (ex (codes ! Suc i) m
          (run_in_order ex m (take (Suc i) codes) w)) = None" by blast
      then show "fst (ex (codes' ! i) m (run_in_order ex m (take i codes') w1)) = None"
        by (simp add: codes run_in_order_Cons step)
    qed
    have "run_cells ex tr m cs w1 = (None, run_in_order ex m codes' w1)"
      by (rule Cons.IH [OF trs later])
    with True tr step first show ?thesis
      by (simp add: exec_fragment_def codes run_in_order_Cons)
  qed
qed

lemma exec_fragment_confined:
  assumes "confined ex"
  shows "user_ns (snd (exec_fragment ex tr g src w)) = user_ns w"
    and "a \<noteq> g \<Longrightarrow> a \<noteq> user_ns w \<Longrightarrow> dicts (snd (exec_fragment ex tr g src w)) a = dicts w a"
  using assms by (auto simp: confined_def exec_fragment_def split: sum.splits)

lemma run_cells_confined:
  assumes "confined ex"
  shows "user_ns w = m \<Longrightarrow> a \<noteq> m \<Longrightarrow>
     user_ns (snd (run_cells ex tr m nb w)) = m \<and> dicts (snd (run_cells ex tr m nb w)) a = dicts w a"
proof (induction nb arbitrary: w)
  case Nil
  then show ?case by simp
next
  case (Cons c cs)
  show ?case
  proof (cases "cell_type c = ''code''")
    case False
    with Cons show ?thesis by simp
  next
    case True
    obtain r w1 where step: "exec_fragment ex tr m (source c) w = (r, w1)"
      by (cases "exec_fragment ex tr m (source c) w") auto
    have u1: "user_ns w1 = m" and d1: "dicts w1 a = dicts w a"
      using exec_fragment_confined(1) [OF assms, of tr m "source c" w]
        exec_fragment_confined(2) [OF assms, of a m w tr "source c"] step Cons.prems by auto
    show ?thesis
    proof (cases r)
      case None
      with True step Cons.IH [OF u1 Cons.prems(2)] d1 show ?thesis by simp
    next
      case (Some e)
      with True step u1 d1 show ?thesis by simp
    qed
  qed
qed

lemma entry_world_simps:
  "sys_modules (entry_world self fullname p w) = (sys_modules w)(fullname \<mapsto> next_addr w)"
  "dicts (entry_world self fullname p w) = (dicts w)(next_addr w \<mapsto> module_namespace self fullname p)"
  "user_ns (entry_world self fullname p w) = next_addr w"
  "next_addr (entry_world self fullname p w) = Suc (next_addr w)"
  by (simp_all add: entry_world_def new_module_def announce_def Let_def)

text \<open>
  C1. A load succeeds, returning the module \<open>m\<close> and leaving the world \<open>w'\<close>, exactly when
  the notebook is found and read, \<open>m\<close> is the freshly allocated module, every code cell of
  the document is transformed without error, and \<open>w'\<close> is the world in which the first
  cell runs, taken through the transformed texts of the code cells and of no other cell:
  each is executed by \<^verbatim>\<open>exec\<close> with the module's dictionary as globals, in document order,
  once, none of them raising; after which \<^verbatim>\<open>shell.user_ns\<close> is put back.
\<close>

theorem load_module_runs_code_cells:
  "load_module fs ex tr self fullname w = (Inr m, w') \<longleftrightarrow>
     (\<exists>p nb codes. find_notebook fs fullname (loader_path self) = Some p \<and>
        nbformat_read fs p = Inr nb \<and> m = next_addr w \<and>
        map tr (code_sources nb) = map Inr codes \<and>
        w' = (run_in_order ex m codes (entry_world self fullname p w))
               \<lparr>user_ns := user_ns w\<rparr> \<and>
        (\<forall>i < length codes.
           fst (ex (codes ! i) m
                  (run_in_order ex m (take i codes) (entry_world self fullname p w))) = None))"
proof
  assume loaded: "load_module fs ex tr self fullname w = (Inr m, w')"
  obtain p where p: "find_notebook fs fullname (loader_path self) = Some p"
    using loaded by (cases "find_notebook fs fullname (loader_path self)")
      (auto simp: load_module_def)
  obtain nb where nb: "nbformat_read fs p = Inr nb"
    using loaded p by (cases "nbformat_read fs p") (auto simp: load_module_def)
  let ?w0 = "entry_world self fullname p w"
  obtain r w4 where run: "run_cells ex tr (next_addr w) nb ?w0 = (r, w4)"
    by (cases "run_cells ex tr (next_addr w) nb ?w0") auto
  from loaded have "r = None" and m: "m = next_addr w" and w': "w' = w4\<lparr>user_ns := user_ns w\<rparr>"
    by (auto simp: load_module_unfold [OF p nb] run split: option.splits)
  with run have "run_cells ex tr m nb ?w0 = (None, w4)" by simp
  from run_cells_success [OF this] p nb m w'
  show "\<exists>p nb codes. find_notebook fs fullname (loader_path self) = Some p \<and>
        nbformat_read fs p = Inr nb \<and> m = next_addr w \<and>
        map tr (code_sources nb) = map Inr codes \<and>
        w' = (run_in_order ex m codes (entry_world self fullname p w))
               \<lparr>user_ns := user_ns w\<rparr> \<and>
        (\<forall>i < length codes.
           fst (ex (codes ! i) m
                  (run_in_order ex m (take i codes) (entry_world self fullname p w))) = None)"
    by blast
next
  assume "\<exists>p nb codes. find_notebook fs fullname (loader_path self) = Some p \<and>
        nbformat_read fs p = Inr nb \<and> m = next_addr w \<and>
        map tr (code_sources nb) = map Inr codes \<and>
        w' = (run_in_order ex m codes (entry_world self fullname p w))
               \<lparr>user_ns := user_ns w\<rparr> \<and>
        (\<forall>i < length codes.
           fst (ex (codes ! i) m
                  (run_in_order ex m (take i codes) (entry_world self fullname p w))) = None)"
  then obtain p nb codes
    where p: "find_notebook fs fullname (loader_path self) = Some p"
      and nb: "nbformat_read fs p = Inr nb" and m: "m = next_addr w"
      and trs: "map tr (code_sources nb) = map Inr codes"
      and w': "w' = (run_in_order ex m codes (entry_world self fullname p w))\<lparr>user_ns := user_ns w\<rparr>"
      and ok: "\<forall>i < length codes.
           fst (ex (codes ! i) m
                  (run_in_order ex m (take i codes) (entry_world self fullname p w))) = None"
    by blast
  have "run_cells ex tr m nb (entry_world self fullname p w) =
      (None, run_in_order ex m codes (entry_world self fullname p w))"
    by (rule run_cells_complete [OF trs ok])
  then show "load_module fs ex tr self fullname w = (Inr m, w')"
    using m w' by (simp add: load_module_unfold [OF p nb])
qed

theorem load_module_runs_code_cells_witness:
  "load_module demo_fs demo_exec demo_transform demo_loader ''nb'' demo_world =
     (Inr 1,
      \<lparr>dicts = [0 \<mapsto> Map.empty,
                1 \<mapsto> (module_namespace demo_loader ''nb'' ''nb.ipynb'')
                       (''x'' \<mapsto> PyInt 1, ''y'' \<mapsto> PyInt 1)],
       sys_modules = [''nb'' \<mapsto> 1], user_ns = 0, next_addr = 2,
       stdout = [''importing Jupyter notebook from nb.ipynb'']\<rparr>) \<and>
   (\<exists>p nb codes. find_notebook demo_fs ''nb'' (loader_path demo_loader) = Some p \<and>
      nbformat_read demo_fs p = Inr nb \<and> 1 = next_addr demo_world \<and>
      map demo_transform (code_sources nb) = map Inr codes \<and>
      \<lparr>dicts = [0 \<mapsto> Map.empty,
                1 \<mapsto> (module_namespace demo_loader ''nb'' ''nb.ipynb'')
                       (''x'' \<mapsto> PyInt 1, ''y'' \<mapsto> PyInt 1)],
       sys_modules = [''nb'' \<mapsto> 1], user_ns = 0, next_addr = 2,
       stdout = [''importing Jupyter notebook from nb.ipynb'']\<rparr> =
        (run_in_order demo_exec 1 codes
           (entry_world demo_loader ''nb'' p demo_world))\<lparr>user_ns := user_ns demo_world\<rparr> \<and>
      (\<forall>i < length codes.
         fst (demo_exec (codes ! i) 1
                (run_in_order demo_exec 1 (take i codes)
                   (entry_world demo_loader ''nb'' p demo_world))) = None))"
proof -
  have h: "load_module demo_fs demo_exec demo_transform demo_loader ''nb'' demo_world =
     (Inr 1,
      \<lparr>dicts = [0 \<mapsto> Map.empty,
                1 \<mapsto> (module_namespace demo_loader ''nb'' ''nb.ipynb'')
                       (''x'' \<mapsto> PyInt 1, ''y'' \<mapsto> PyInt 1)],
       sys_modules = [''nb'' \<mapsto> 1], user_ns = 0, next_addr = 2,
       stdout = [''importing Jupyter notebook from nb.ipynb'']\<rparr>)"
    by (simp add: demo_defs model_defs)
  show ?thesis
    by (rule conjI [OF h load_module_runs_code_cells [THEN iffD1, OF h]])
qed

text \<open>
  C2. Whatever \<^verbatim>\<open>shell.user_ns\<close> referred to before the call, it refers to again when
  \<^verbatim>\<open>load_module\<close> is left, by return or by exception. When the executed code is confined
  to its globals and to the dictionary \<^verbatim>\<open>shell.user_ns\<close> refers to, the dictionary that was
  the interactive namespace before the call also holds exactly the bindings it held.
\<close>

theorem load_module_restores_user_ns:
  "user_ns (snd (load_module fs ex tr self fullname w)) = user_ns w \<and>
   (confined ex \<longrightarrow> user_ns w < next_addr w \<longrightarrow>
      dicts (snd (load_module fs ex tr self fullname w)) (user_ns w) = dicts w (user_ns w))"
proof (cases "find_notebook fs fullname (loader_path self)")
  case None
  then show ?thesis by (simp add: load_module_def announce_def)
next
  case (Some p)
  show ?thesis
  proof (cases "nbformat_read fs p")
    case (Inl e)
    with Some show ?thesis by (simp add: load_module_def announce_def)
  next
    case (Inr nb)
    let ?w0 = "entry_world self fullname p w"
    have ref: "user_ns (snd (load_module fs ex tr self fullname w)) = user_ns w"
      by (simp add: load_module_unfold [OF Some Inr])
    have same: "dicts (snd (load_module fs ex tr self fullname w)) (user_ns w) = dicts w (user_ns w)"
      if c: "confined ex" and a: "user_ns w < next_addr w"
    proof -
      have ne: "user_ns w \<noteq> next_addr w" using a by simp
      have "dicts (snd (run_cells ex tr (next_addr w) nb ?w0)) (user_ns w) = dicts ?w0 (user_ns w)"
        using run_cells_confined [OF c, of ?w0 "next_addr w" "user_ns w" tr nb] ne
        by (simp add: entry_world_simps)
      also have "\<dots> = dicts w (user_ns w)"
        using ne by (simp add: entry_world_simps)
      finally show ?thesis
        by (simp add: load_module_unfold [OF Some Inr])
    qed
    from ref same show ?thesis by blast
  qed
qed

lemma demo_exec_confined: "confined demo_exec"
  by (simp add: confined_def demo_exec_def bind_name_def)

theorem load_module_restores_user_ns_witness:
  "confined demo_exec \<and> user_ns demo_world < next_addr demo_world \<and>
   fst (load_module demo_fs demo_exec demo_transform demo_loader ''nb'' demo_world) = Inr 1 \<and>
   dicts (snd (load_module demo_fs demo_exec demo_transform demo_loader ''nb'' demo_world)) 1 =
     Some ((module_namespace demo_loader ''nb'' ''nb.ipynb'')(''x'' \<mapsto> PyInt 1, ''y'' \<mapsto> PyInt 1)) \<and>
   user_ns (snd (load_module demo_fs demo_exec demo_transform demo_loader ''nb'' demo_world))
     = user_ns demo_world \<and>
   dicts (snd (load_module demo_fs demo_exec demo_transform demo_loader ''nb'' demo_world))
     (user_ns demo_world) = dicts demo_world (user_ns demo_world)"
proof -
  have h: "user_ns demo_world < next_addr demo_world"
    by (simp add: demo_world_def)
  have ran: "fst (load_module demo_fs demo_exec demo_transform demo_loader ''nb'' demo_world) = Inr 1"
    "dicts (snd (load_module demo_fs demo_exec demo_transform demo_loader ''nb'' demo_world)) 1 =
     Some ((module_namespace demo_loader ''nb'' ''nb.ipynb'')(''x'' \<mapsto> PyInt 1, ''y'' \<mapsto> PyInt 1))"
    by (simp_all add: demo_defs model_defs)
  show ?thesis
    using h ran demo_exec_confined
      load_module_restores_user_ns [of demo_fs demo_exec demo_transform demo_loader "''nb''" demo_world]
    by simp
qed

lemma load_module_failure:
  assumes "find_notebook fs fullname (loader_path self) = Some p"
    and "nbformat_read fs p = Inr nb"
    and "nb = pre @ c # post"
    and "cell_type c = ''code''"
    and "run_cells ex tr (next_addr w) pre (entry_world self fullname p w) = (None, w1)"
    and "exec_fragment ex tr (next_addr w) (source c) w1 = (Some e, w2)"
  shows "load_module fs ex tr self fullname w = (Inl e, w2\<lparr>user_ns := user_ns w\<rparr>)"
proof -
  have "run_cells ex tr (next_addr w) nb (entry_world self fullname p w) = (Some e, w2)"
    unfolding assms(3) by (rule run_cells_first_failure [OF assms(4) assms(5) assms(6)])
  then show ?thesis
    by (simp add: load_module_unfold [OF assms(1) assms(2)])
qed

lemma exec_fragment_keeps_entry:
  assumes "\<forall>code g w. sys_modules (snd (ex code g w)) name = sys_modules w name"
  shows "sys_modules (snd (exec_fragment ex tr m src w)) name = sys_modules w name"
  using assms by (simp add: exec_fragment_def split: sum.splits)

lemma run_cells_keeps_entry:
  assumes "\<forall>code g w. sys_modules (snd (ex code g w)) name = sys_modules w name"
  shows "sys_modules (snd (run_cells ex tr m nb w)) name = sys_modules w name"
proof (induction nb arbitrary: w)
  case Nil
  then show ?case by simp
next
  case (Cons c cs)
  show ?case
  proof (cases "cell_type c = ''code''")
    case False
    with Cons show ?thesis by simp
  next
    case True
    obtain r w1 where step: "exec_fragment ex tr m (source c) w = (r, w1)"
      by (cases "exec_fragment ex tr m (source c) w") auto
    have keep: "sys_modules w1 name = sys_modules w name"
      using exec_fragment_keeps_entry [OF assms, of tr m "source c" w] step by simp
    show ?thesis
    proof (cases r)
      case None
      with True step Cons.IH [of w1] keep show ?thesis by simp
    next
      case (Some e)
      with True step keep show ?thesis by simp
    qed
  qed
qed

lemma demo_failing_found:
  "find_notebook demo_fs ''failing'' (loader_path demo_loader) = Some ''failing.ipynb''"
  by (simp add: demo_defs model_defs)

lemma demo_failing_read:
  "nbformat_read demo_fs ''failing.ipynb'' = Inr [code_cell ''a'', code_cell ''raise'', code_cell ''b'']"
  by (simp add: demo_defs)

lemma demo_failing_split:
  "[code_cell ''a'', code_cell ''raise'', code_cell ''b''] =
     [code_cell ''a''] @ code_cell ''raise'' # [code_cell ''b'']"
  by simp

lemma demo_failing_code: "cell_type (code_cell ''raise'') = ''code''"
  by (simp add: code_cell_def)

lemma demo_failing_pre:
  "run_cells demo_exec demo_transform (next_addr demo_world) [code_cell ''a'']
     (entry_world demo_loader ''failing'' ''failing.ipynb'' demo_world) =
   (None, bind_name 1 ''a'' (entry_world demo_loader ''failing'' ''failing.ipynb'' demo_world))"
  by (simp add: demo_defs model_defs)

lemma demo_failing_raise:
  "exec_fragment demo_exec demo_transform (next_addr demo_world) (source (code_cell ''raise''))
     (bind_name 1 ''a'' (entry_world demo_loader ''failing'' ''failing.ipynb'' demo_world)) =
   (Some boom, bind_name 1 ''a'' (entry_world demo_loader ''failing'' ''failing.ipynb'' demo_world))"
  by (simp add: demo_exec_def demo_transform_def exec_fragment_def code_cell_def)

lemma demo_exec_keeps_registry:
  "\<forall>code g w. sys_modules (snd (demo_exec code g w)) name = sys_modules w name"
  by (simp add: demo_exec_def bind_name_def)

text \<open>
  C3. In every load that gets as far as creating the module, the module is in
  \<^verbatim>\<open>sys.modules\<close> under its name in the world in which the cell loop starts, and
  \<^verbatim>\<open>load_module\<close> rolls nothing back: it leaves the world as the loop left it, with only
  \<^verbatim>\<open>shell.user_ns\<close> put back. So when a code cell raises after the cells before it ran,
  \<^verbatim>\<open>sys.modules\<close> and every dictionary, that of the partly populated module included, are
  as the raising cell left them; and unless executed code itself rebinds the entry, the
  module is still registered under its name after the load.
\<close>

theorem load_module_registers_before_exec:
  assumes "find_notebook fs fullname (loader_path self) = Some p"
    and "nbformat_read fs p = Inr nb"
  shows "sys_modules (entry_world self fullname p w) fullname = Some (next_addr w) \<and>
         snd (load_module fs ex tr self fullname w) =
           (snd (run_cells ex tr (next_addr w) nb (entry_world self fullname p w)))
             \<lparr>user_ns := user_ns w\<rparr> \<and>
         (nb = pre @ c # post \<longrightarrow> cell_type c = ''code'' \<longrightarrow>
          run_cells ex tr (next_addr w) pre (entry_world self fullname p w) = (None, wpre) \<longrightarrow>
          exec_fragment ex tr (next_addr w) (source c) wpre = (Some e, wfail) \<longrightarrow>
            sys_modules (snd (load_module fs ex tr self fullname w)) = sys_modules wfail \<and>
            dicts (snd (load_module fs ex tr self fullname w)) = dicts wfail) \<and>
         ((\<forall>code g w. sys_modules (snd (ex code g w)) fullname = sys_modules w fullname) \<longrightarrow>
            sys_modules (snd (load_module fs ex tr self fullname w)) fullname = Some (next_addr w))"
proof -
  let ?w0 = "entry_world self fullname p w"
  have reg: "sys_modules ?w0 fullname = Some (next_addr w)"
    by (simp add: entry_world_simps)
  have fin: "snd (load_module fs ex tr self fullname w) =
      (snd (run_cells ex tr (next_addr w) nb ?w0))\<lparr>user_ns := user_ns w\<rparr>"
    by (simp add: load_module_unfold [OF assms])
  have fail: "sys_modules (snd (load_module fs ex tr self fullname w)) = sys_modules wfail \<and>
      dicts (snd (load_module fs ex tr self fullname w)) = dicts wfail"
    if "nb = pre @ c # post" "cell_type c = ''code''"
      "run_cells ex tr (next_addr w) pre ?w0 = (None, wpre)"
      "exec_fragment ex tr (next_addr w) (source c) wpre = (Some e, wfail)"
    by (simp add: load_module_failure [OF assms that])
  have kept: "sys_modules (snd (load_module fs ex tr self fullname w)) fullname = Some (next_addr w)"
    if "\<forall>code g w. sys_modules (snd (ex code g w)) fullname = sys_modules w fullname"
    using run_cells_keeps_entry [OF that, of tr "next_addr w" nb ?w0] reg by (simp add: fin)
  from reg fin fail kept show ?thesis by blast
qed

theorem load_module_registers_before_exec_witness:
  "find_notebook demo_fs ''failing'' (loader_path demo_loader) = Some ''failing.ipynb'' \<and>
   nbformat_read demo_fs ''failing.ipynb'' = Inr [code_cell ''a'', code_cell ''raise'', code_cell ''b''] \<and>
   cell_type (code_cell ''raise'') = ''code'' \<and>
   (\<forall>code g w. sys_modules (snd (demo_exec code g w)) ''failing'' = sys_modules w ''failing'') \<and>
   fst (load_module demo_fs demo_exec demo_transform demo_loader ''failing'' demo_world) = Inl boom \<and>
   sys_modules (entry_world demo_loader ''failing'' ''failing.ipynb'' demo_world) ''failing'' = Some 1 \<and>
   sys_modules (snd (load_module demo_fs demo_exec demo_transform demo_loader ''failing'' demo_world))
     ''failing'' = Some 1 \<and>
   dicts (snd (load_module demo_fs demo_exec demo_transform demo_loader ''failing'' demo_world)) 1 =
     Some ((module_namespace demo_loader ''failing'' ''failing.ipynb'')(''a'' \<mapsto> PyInt 1))"
proof -
  let ?wa = "bind_name 1 ''a'' (entry_world demo_loader ''failing'' ''failing.ipynb'' demo_world)"
  note T = load_module_registers_before_exec [OF demo_failing_found demo_failing_read,
        where w = demo_world and pre = "[code_cell ''a'']" and c = "code_cell ''raise''"
          and post = "[code_cell ''b'']" and ex = demo_exec and tr = demo_transform and e = boom
          and wpre = ?wa and wfail = ?wa]
  have one: "next_addr demo_world = 1"
    by (simp add: demo_world_def)
  have failed: "fst (load_module demo_fs demo_exec demo_transform demo_loader ''failing'' demo_world)
      = Inl boom"
    by (simp add: demo_defs model_defs)
  have reg: "sys_modules (entry_world demo_loader ''failing'' ''failing.ipynb'' demo_world) ''failing''
      = Some 1"
    using T [THEN conjunct1] by (simp only: one)
  have left: "sys_modules (snd (load_module demo_fs demo_exec demo_transform demo_loader ''failing''
        demo_world)) = sys_modules ?wa \<and>
      dicts (snd (load_module demo_fs demo_exec demo_transform demo_loader ''failing'' demo_world))
        = dicts ?wa"
    by (rule mp [OF mp [OF mp [OF mp [OF T [THEN conjunct2, THEN conjunct2, THEN conjunct1]
        demo_failing_split] demo_failing_code] demo_failing_pre] demo_failing_raise])
  have kept: "sys_modules (snd (load_module demo_fs demo_exec demo_transform demo_loader ''failing''
        demo_world)) ''failing'' = Some 1"
    using mp [OF T [THEN conjunct2, THEN conjunct2, THEN conjunct2] demo_exec_keeps_registry]
    by (simp only: one)
  have names: "dicts ?wa 1 =
      Some ((module_namespace demo_loader ''failing'' ''failing.ipynb'')(''a'' \<mapsto> PyInt 1))"
    by (simp add: bind_name_def entry_world_simps demo_world_def)
  show ?thesis
    using demo_failing_found demo_failing_read demo_failing_code
      demo_exec_keeps_registry [of "''failing''"] failed reg kept left names
    by simp
qed

text \<open>
  C4, as the design document words it, fails: when the second code cell of a notebook
  raises \<open>RuntimeError\<close>, the caller of \<^verbatim>\<open>load_module\<close> receives that very exception, which is
  not a \<open>LoadError\<close> and wraps nothing.
\<close>

theorem load_module_no_LoadError_counterexample:
  "fst (load_module demo_fs demo_exec demo_transform demo_loader ''failing'' demo_world) = Inl boom \<and>
   demo_exec ''raise'' 1 demo_world = (Some boom, demo_world) \<and>
   \<not> wraps_as_LoadError boom boom \<and> exn_class boom \<noteq> ''LoadError''"
  by (simp add: demo_defs model_defs wraps_as_LoadError_def)

text \<open>
  C4, amended. When a code cell raises during the load, after the cells before it ran,
  \<^verbatim>\<open>load_module\<close> raises that same exception to its caller, unchanged: it is never swallowed,
  and no module name or cell index is added to it.
\<close>

theorem load_module_propagates_error:
  assumes "find_notebook fs fullname (loader_path self) = Some p"
    and "nbformat_read fs p = Inr nb"
    and "nb = pre @ c # post"
    and "cell_type c = ''code''"
    and "run_cells ex tr (next_addr w) pre (entry_world self fullname p w) = (None, w1)"
    and "exec_fragment ex tr (next_addr w) (source c) w1 = (Some e, w2)"
  shows "fst (load_module fs ex tr self fullname w) = Inl e"
  by (simp add: load_module_failure [OF assms])

theorem load_module_propagates_error_witness:
  "find_notebook demo_fs ''failing'' (loader_path demo_loader) = Some ''failing.ipynb'' \<and>
   nbformat_read demo_fs ''failing.ipynb'' = Inr [code_cell ''a'', code_cell ''raise'', code_cell ''b''] \<and>
   cell_type (code_cell ''raise'') = ''code'' \<and>
   exec_fragment demo_exec demo_transform (next_addr demo_world) (source (code_cell ''raise''))
     (bind_name 1 ''a'' (entry_world demo_loader ''failing'' ''failing.ipynb'' demo_world)) =
   (Some boom, bind_name 1 ''a'' (entry_world demo_loader ''failing'' ''failing.ipynb'' demo_world)) \<and>
   fst (load_module demo_fs demo_exec demo_transform demo_loader ''failing'' demo_world) = Inl boom"
  using demo_failing_found demo_failing_read demo_failing_code demo_failing_raise
    load_module_propagates_error [OF demo_failing_found demo_failing_read demo_failing_split
      demo_failing_code demo_failing_pre demo_failing_raise]
  by simp

lemma run_cells_first_code_cell:
  assumes "\<forall>c' \<in> set pre. cell_type c' \<noteq> ''code''"
    and "cell_type c = ''code''"
    and "tr (source c) = Inr code"
  shows "run_cells ex tr m (pre @ c # post) w =
     (case ex code m w of
        (Some e, w') \<Rightarrow> (Some e, w')
      | (None, w') \<Rightarrow> run_cells ex tr m post w')"
  using assms run_cells_no_code [OF assms(1), of ex tr m w]
  by (simp add: run_cells_append exec_fragment_def)

lemma demo_nb_found:
  "find_notebook demo_fs ''nb'' (loader_path demo_loader) = Some ''nb.ipynb''"
  by (simp add: demo_defs model_defs)

lemma demo_nb_read:
  "nbformat_read demo_fs ''nb.ipynb'' =
     Inr [code_cell ''%x'', markdown_cell ''ignored'', code_cell ''y'']"
  by (simp add: demo_defs)

lemma demo_prose_found:
  "find_notebook demo_fs ''prose'' (loader_path demo_loader) = Some ''prose.ipynb''"
  by (simp add: demo_defs model_defs)

lemma demo_prose_read:
  "nbformat_read demo_fs ''prose.ipynb'' = Inr [markdown_cell ''no code here'']"
  by (simp add: demo_defs)

text \<open>
  C9. For every document that is found and read, \<^verbatim>\<open>load_module\<close> is the cell loop started
  in a world where the dictionary of the new module already holds \<open>get_ipython\<close> next to
  \<open>__file__\<close> and \<open>__loader__\<close>, followed by putting \<^verbatim>\<open>shell.user_ns\<close> back; the first code cell
  of the document is executed by \<^verbatim>\<open>exec\<close> in exactly that world. A notebook without code
  cells loads successfully, and its module's dictionary is exactly the seeded one, so it
  contains \<open>get_ipython\<close> although no cell bound it.
\<close>

theorem load_module_seeds_get_ipython:
  assumes "find_notebook fs fullname (loader_path self) = Some p"
    and "nbformat_read fs p = Inr nb"
  shows "dicts (entry_world self fullname p w) (next_addr w) = Some (module_namespace self fullname p) \<and>
         module_namespace self fullname p ''get_ipython'' = Some (PyFunction ''get_ipython'') \<and>
         module_namespace self fullname p ''__file__'' = Some (PyStr p) \<and>
         module_namespace self fullname p ''__loader__'' = Some (PyLoader (loader_id self)) \<and>
         load_module fs ex tr self fullname w =
           (case fst (run_cells ex tr (next_addr w) nb (entry_world self fullname p w)) of
              Some e \<Rightarrow> Inl e | None \<Rightarrow> Inr (next_addr w),
            (snd (run_cells ex tr (next_addr w) nb (entry_world self fullname p w)))
              \<lparr>user_ns := user_ns w\<rparr>) \<and>
         (nb = pre @ c # post \<longrightarrow> (\<forall>c' \<in> set pre. cell_type c' \<noteq> ''code'') \<longrightarrow>
          cell_type c = ''code'' \<longrightarrow> tr (source c) = Inr code \<longrightarrow>
            run_cells ex tr (next_addr w) nb (entry_world self fullname p w) =
              (case ex code (next_addr w) (entry_world self fullname p w) of
                 (Some e, w') \<Rightarrow> (Some e, w')
               | (None, w') \<Rightarrow> run_cells ex tr (next_addr w) post w')) \<and>
         ((\<forall>c \<in> set nb. cell_type c \<noteq> ''code'') \<longrightarrow>
            fst (load_module fs ex tr self fullname w) = Inr (next_addr w) \<and>
            dicts (snd (load_module fs ex tr self fullname w)) (next_addr w) =
              Some (module_namespace self fullname p))"
proof -
  let ?w0 = "entry_world self fullname p w"
  have seeded: "dicts ?w0 (next_addr w) = Some (module_namespace self fullname p)"
    by (simp add: entry_world_simps)
  have names: "module_namespace self fullname p ''get_ipython'' = Some (PyFunction ''get_ipython'')"
    "module_namespace self fullname p ''__file__'' = Some (PyStr p)"
    "module_namespace self fullname p ''__loader__'' = Some (PyLoader (loader_id self))"
    by (simp_all add: module_namespace_def)
  have loop: "load_module fs ex tr self fullname w =
      (case fst (run_cells ex tr (next_addr w) nb ?w0) of
         Some e \<Rightarrow> Inl e | None \<Rightarrow> Inr (next_addr w),
       (snd (run_cells ex tr (next_addr w) nb ?w0))\<lparr>user_ns := user_ns w\<rparr>)"
    by (rule load_module_unfold [OF assms])
  have first: "run_cells ex tr (next_addr w) nb ?w0 =
      (case ex code (next_addr w) ?w0 of
         (Some e, w') \<Rightarrow> (Some e, w')
       | (None, w') \<Rightarrow> run_cells ex tr (next_addr w) post w')"
    if "nb = pre @ c # post" "\<forall>c' \<in> set pre. cell_type c' \<noteq> ''code''"
      "cell_type c = ''code''" "tr (source c) = Inr code"
    unfolding that(1)
    by (rule run_cells_first_code_cell [where tr = tr and c = c, OF that(2) that(3) that(4)])
  have prose: "fst (load_module fs ex tr self fullname w) = Inr (next_addr w) \<and>
      dicts (snd (load_module fs ex tr self fullname w)) (next_addr w) =
        Some (module_namespace self fullname p)"
    if "\<forall>c \<in> set nb. cell_type c \<noteq> ''code''"
    using run_cells_no_code [OF that, of ex tr "next_addr w" ?w0]
    by (simp add: loop entry_world_simps)
  from seeded names loop first prose show ?thesis by blast
qed

theorem load_module_seeds_get_ipython_witness:
  "find_notebook demo_fs ''prose'' (loader_path demo_loader) = Some ''prose.ipynb'' \<and>
   nbformat_read demo_fs ''prose.ipynb'' = Inr [markdown_cell ''no code here''] \<and>
   cell_type (markdown_cell ''no code here'') \<noteq> ''code'' \<and>
   fst (load_module demo_fs demo_exec demo_transform demo_loader ''prose'' demo_world) = Inr 1 \<and>
   dicts (snd (load_module demo_fs demo_exec demo_transform demo_loader ''prose'' demo_world)) 1 =
     Some (module_namespace demo_loader ''prose'' ''prose.ipynb'') \<and>
   module_namespace demo_loader ''prose'' ''prose.ipynb'' ''get_ipython'' =
     Some (PyFunction ''get_ipython'') \<and>
   find_notebook demo_fs ''nb'' (loader_path demo_loader) = Some ''nb.ipynb'' \<and>
   nbformat_read demo_fs ''nb.ipynb'' =
     Inr [code_cell ''%x'', markdown_cell ''ignored'', code_cell ''y''] \<and>
   cell_type (code_cell ''%x'') = ''code'' \<and>
   demo_transform (source (code_cell ''%x'')) = Inr ''%x'' \<and>
   dicts (entry_world demo_loader ''nb'' ''nb.ipynb'' demo_world) 1 =
     Some (module_namespace demo_loader ''nb'' ''nb.ipynb'') \<and>
   run_cells demo_exec demo_transform 1
       [code_cell ''%x'', markdown_cell ''ignored'', code_cell ''y'']
       (entry_world demo_loader ''nb'' ''nb.ipynb'' demo_world) =
     (case demo_exec ''%x'' 1 (entry_world demo_loader ''nb'' ''nb.ipynb'' demo_world) of
        (Some e, w') \<Rightarrow> (Some e, w')
      | (None, w') \<Rightarrow> run_cells demo_exec demo_transform 1
                        [markdown_cell ''ignored'', code_cell ''y''] w')"
proof -
  note P = load_module_seeds_get_ipython [OF demo_prose_found demo_prose_read,
      where w = demo_world and ex = demo_exec and tr = demo_transform]
  note N = load_module_seeds_get_ipython [OF demo_nb_found demo_nb_read,
      where w = demo_world and ex = demo_exec and tr = demo_transform and pre = "[]"
        and c = "code_cell ''%x''" and post = "[markdown_cell ''ignored'', code_cell ''y'']"
        and code = "''%x''"]
  have one: "next_addr demo_world = 1"
    by (simp add: demo_world_def)
  have md: "cell_type (markdown_cell ''no code here'') \<noteq> ''code''"
    by (simp add: markdown_cell_def)
  have nocode: "\<forall>c \<in> set [markdown_cell ''no code here'']. cell_type c \<noteq> ''code''"
    using md by simp
  have prose: "fst (load_module demo_fs demo_exec demo_transform demo_loader ''prose'' demo_world)
        = Inr 1 \<and>
      dicts (snd (load_module demo_fs demo_exec demo_transform demo_loader ''prose'' demo_world)) 1 =
        Some (module_namespace demo_loader ''prose'' ''prose.ipynb'')"
    using mp [OF P [THEN conjunct2, THEN conjunct2, THEN conjunct2, THEN conjunct2,
          THEN conjunct2, THEN conjunct2] nocode]
    by (simp only: one)
  have gi: "module_namespace demo_loader ''prose'' ''prose.ipynb'' ''get_ipython'' =
      Some (PyFunction ''get_ipython'')"
    by (rule P [THEN conjunct2, THEN conjunct1])
  have code: "cell_type (code_cell ''%x'') = ''code''"
    by (simp add: code_cell_def)
  have tr: "demo_transform (source (code_cell ''%x'')) = Inr ''%x''"
    by (simp add: demo_transform_def code_cell_def)
  have split: "[code_cell ''%x'', markdown_cell ''ignored'', code_cell ''y''] =
      [] @ code_cell ''%x'' # [markdown_cell ''ignored'', code_cell ''y'']"
    by simp
  have nopre: "\<forall>c' \<in> set []. cell_type c' \<noteq> ''code''"
    by simp
  have seeded: "dicts (entry_world demo_loader ''nb'' ''nb.ipynb'' demo_world) 1 =
      Some (module_namespace demo_loader ''nb'' ''nb.ipynb'')"
    using N [THEN conjunct1] by (simp only: one)
  have first: "run_cells demo_exec demo_transform 1
       [code_cell ''%x'', markdown_cell ''ignored'', code_cell ''y'']
       (entry_world demo_loader ''nb'' ''nb.ipynb'' demo_world) =
     (case demo_exec ''%x'' 1 (entry_world demo_loader ''nb'' ''nb.ipynb'' demo_world) of
        (Some e, w') \<Rightarrow> (Some e, w')
      | (None, w') \<Rightarrow> run_cells demo_exec demo_transform 1
                        [markdown_cell ''ignored'', code_cell ''y''] w')"
    using mp [OF mp [OF mp [OF mp [OF N [THEN conjunct2, THEN conjunct2, THEN conjunct2,
          THEN conjunct2, THEN conjunct2, THEN conjunct1] split] nopre] code] tr]
    by (simp only: one)
  from demo_prose_found demo_prose_read md prose gi demo_nb_found demo_nb_read code tr seeded first
  show ?thesis by blast
qed

text \<open>
  C10. When the loader's search path does not lead to a notebook, \<^verbatim>\<open>load_module\<close> raises
  (opening \<^verbatim>\<open>None\<close> is a \<open>TypeError\<close>) before a module is created: \<^verbatim>\<open>sys.modules\<close>, the
  store of module dictionaries, the allocator and \<^verbatim>\<open>shell.user_ns\<close> are as before.
\<close>

theorem load_module_not_found:
  assumes "find_notebook fs fullname (loader_path self) = None"
  shows "fst (load_module fs ex tr self fullname w) = Inl open_None \<and>
         sys_modules (snd (load_module fs ex tr self fullname w)) = sys_modules w \<and>
         dicts (snd (load_module fs ex tr self fullname w)) = dicts w \<and>
         next_addr (snd (load_module fs ex tr self fullname w)) = next_addr w \<and>
         user_ns (snd (load_module fs ex tr self fullname w)) = user_ns w"
  using assms by (simp add: load_module_def announce_def)

theorem load_module_not_found_witness:
  "find_notebook (fs_of []) ''missing'' (loader_path demo_loader) = None \<and>
   fst (load_module (fs_of []) demo_exec demo_transform demo_loader ''missing'' demo_world)
     = Inl open_None \<and>
   sys_modules (snd (load_module (fs_of []) demo_exec demo_transform demo_loader ''missing''
     demo_world)) = sys_modules demo_world"
proof -
  have h: "find_notebook (fs_of []) ''missing'' (loader_path demo_loader) = None"
    by (simp add: find_notebook_def search_dirs_def fs_of_def demo_loader_def)
  show ?thesis
    using h load_module_not_found [OF h, of demo_exec demo_transform demo_world] by simp
qed

end
